theory Spec2Isabelle
  imports Complex_Main "HOL-Library.Log_Nat"
begin

section \<open>Method-of-lines notebooks: a shallow embedding\<close>

text \<open>
  The repository holds two notebooks. The first integrates a 1-D heat equation, the
  second a damped 2-D wave equation with an external force. Each defines a right-hand
  side \<open>odefun\<close> that is handed to \<open>scipy.integrate.solve_ivp\<close>.

  Numbers: the notebooks compute with float64. The right-hand sides \<open>heat_odefun\<close> and
  \<open>wave_odefun\<close> are written over \<^typ>\<open>real\<close>: every operation of the code, in the
  code's order, without rounding, and without \<open>inf\<close> or \<open>nan\<close>. A theorem over them is a
  statement about the program where rounding cannot change its truth (both sides are the
  same operations in the same order, or the cells are exactly 0); elsewhere it says
  "in exact arithmetic". The section on float64 below models the rounding itself; the
  grid and \<open>heat_odefun_f64\<close> are written with it.

  Errors: a Python exception is a value of \<open>error\<close>; a function that can raise returns
  \<open>error + 'a\<close> with \<open>Inl\<close> for the exception. \<open>ValueError\<close>, \<open>IndexError\<close>,
  \<open>ZeroDivisionError\<close> and \<open>OverflowError\<close> are what numpy and Python raise in the code
  modelled here. The other three are the error names of the specification; the notebooks
  neither define nor raise them, and they are constructors only so that a statement can
  name them.
\<close>

datatype error =
    ValueError | IndexError | ZeroDivisionError | OverflowError
  | ConfigurationError | ShapeMismatchError | IntegrationError

fun bind_res :: "error + 'a \<Rightarrow> ('a \<Rightarrow> error + 'b) \<Rightarrow> error + 'b" where
  "bind_res (Inl e) f = Inl e"
| "bind_res (Inr v) f = f v"

subsection \<open>numpy on one-dimensional arrays\<close>

text \<open>\<open>np.diff(a, axis=0)\<close> on a 1-D array: \<open>a[1:] - a[:-1]\<close>.\<close>

fun diff :: "real list \<Rightarrow> real list" where
  "diff (u # v # r) = (v - u) # diff (v # r)"
| "diff [u] = []"
| "diff [] = []"

text \<open>
  \<open>dst[slice] = src\<close> where the slice has \<open>n\<close> cells: numpy takes \<open>src\<close> as it is when
  the lengths agree, repeats it when it has one element, and raises \<open>ValueError\<close>
  otherwise. The result is the content written to the slice.
\<close>

definition assign_slice :: "nat \<Rightarrow> 'a list \<Rightarrow> error + 'a list" where
  "assign_slice n src =
     (if length src = n then Inr src
      else if length src = 1 then Inr (replicate n (hd src))
      else Inl ValueError)"

text \<open>
  An elementwise binary operation on two 1-D arrays, with numpy's broadcasting: equal
  lengths, or one operand of length one that is repeated; anything else raises
  \<open>ValueError\<close>.
\<close>

definition broadcast2 ::
  "('a \<Rightarrow> 'a \<Rightarrow> 'a) \<Rightarrow> 'a list \<Rightarrow> 'a list \<Rightarrow> error + 'a list" where
  "broadcast2 f xs ys =
     (if length xs = length ys then Inr (map2 f xs ys)
      else if length xs = 1 then Inr (map (f (hd xs)) ys)
      else if length ys = 1 then Inr (map (\<lambda>v. f v (hd ys)) xs)
      else Inl ValueError)"

subsection \<open>The 1-D heat notebook\<close>

text \<open>
  The dictionary \<open>params\<close> with its keys \<open>'c'\<close>, \<open>'q'\<close>, \<open>'x'\<close>, \<open>'a'\<close>, \<open>'Nx'\<close>.
\<close>

record params =
  p_c :: real
  p_q :: "real list"
  p_x :: "real list"
  p_a :: real
  p_Nx :: nat

text \<open>
  \<^verbatim>\<open>
  def odefun(t,y,params):
      s = y * params['a']
      dq_left = np.zeros((params['Nx'],))
      dq_right = np.zeros((params['Nx'],))
      dq_left[1:] = -1.0*np.diff(params['q'], axis=0)
      dq_right[:-1] = np.diff(params['q'], axis=0)
      dq = dq_left + dq_right
      dTdt = -params['c']**(-1) * (dq/np.diff(params['x'], axis=0) - s)
      return dTdt
  \<close>
  \<open>dq_left[1:]\<close> and \<open>dq_right[:-1]\<close> are slices of \<open>Nx - 1\<close> cells (none when
  \<open>Nx = 0\<close>). \<open>params['c']\<close> is a Python number, and Python raises
  \<open>ZeroDivisionError\<close> for \<open>0 ** (-1)\<close>; the left operand of \<open>*\<close> is evaluated
  before the right one.
\<close>

definition heat_odefun :: "real \<Rightarrow> real list \<Rightarrow> params \<Rightarrow> error + real list" where
  "heat_odefun t y p =
     (let s = map (\<lambda>v. v * p_a p) y;
          dq_left0 = replicate (p_Nx p) 0;
          dq_right0 = replicate (p_Nx p) 0
      in bind_res (assign_slice (p_Nx p - 1) (map (\<lambda>v. - 1 * v) (diff (p_q p)))) (\<lambda>l.
         let dq_left = take 1 dq_left0 @ l
         in bind_res (assign_slice (p_Nx p - 1) (diff (p_q p))) (\<lambda>r.
            let dq_right = r @ drop (p_Nx p - 1) dq_right0;
                dq = map2 (+) dq_left dq_right
            in if p_c p = 0 then Inl ZeroDivisionError
               else bind_res (broadcast2 (/) dq (diff (p_x p))) (\<lambda>d.
                    bind_res (broadcast2 (-) d s) (\<lambda>e.
                    Inr (map (\<lambda>v. - inverse (p_c p) * v) e))))))"

text \<open>
  The right-hand side as the specification words it, cell by cell: the net flux
  \<open>dq[i]\<close> has a left part for \<open>i \<ge> 1\<close> and a right part for \<open>i < Nx - 1\<close>, the cell
  width is the forward difference of the grid, and
  \<open>dT/dt = -(1/C) (dq/\<Delta>x - a y)\<close>.
\<close>

definition dq_spec :: "real list \<Rightarrow> nat \<Rightarrow> nat \<Rightarrow> real" where
  "dq_spec q n i =
     (if 1 \<le> i then - (q ! i - q ! (i - 1)) else 0) +
     (if i + 1 < n then q ! (i + 1) - q ! i else 0)"

definition heat_rhs_spec :: "params \<Rightarrow> real list \<Rightarrow> real list" where
  "heat_rhs_spec p y =
     map (\<lambda>i. - (1 / p_c p) *
               (dq_spec (p_q p) (p_Nx p) i / (p_x p ! (i + 1) - p_x p ! i) - p_a p * y ! i))
       [0..<p_Nx p]"


subsection \<open>Two-dimensional arrays\<close>

text \<open>
  A numpy array of shape \<open>(nrows, ncols)\<close> is its shape and its cells in row-major
  order, which is what \<open>reshape\<close> reads and writes: cell \<open>[i, j]\<close> is cell
  \<open>i * ncols + j\<close> of the flat content.
\<close>

record array2 =
  nrows :: nat
  ncols :: nat
  flat :: "real list"

definition zeros2 :: "nat \<Rightarrow> nat \<Rightarrow> array2" where
  "zeros2 n m = \<lparr>nrows = n, ncols = m, flat = replicate (n * m) 0\<rparr>"

text \<open>\<open>v.reshape(n, m)\<close>: \<open>ValueError\<close> unless \<open>v\<close> has \<open>n * m\<close> cells.\<close>

definition reshape2 :: "real list \<Rightarrow> nat \<Rightarrow> nat \<Rightarrow> error + array2" where
  "reshape2 v n m =
     (if length v = n * m then Inr \<lparr>nrows = n, ncols = m, flat = v\<rparr> else Inl ValueError)"

text \<open>\<open>A.reshape(k,)\<close>: \<open>ValueError\<close> unless \<open>A\<close> has \<open>k\<close> cells.\<close>

definition reshape1 :: "array2 \<Rightarrow> nat \<Rightarrow> error + real list" where
  "reshape1 A k = (if length (flat A) = k then Inr (flat A) else Inl ValueError)"

definition get2 :: "array2 \<Rightarrow> nat \<Rightarrow> nat \<Rightarrow> real" where
  "get2 A i j = flat A ! (i * ncols A + j)"

text \<open>\<open>A[i, j] = v\<close> with non-negative indices: \<open>IndexError\<close> outside the shape.\<close>

definition set2 :: "array2 \<Rightarrow> nat \<Rightarrow> nat \<Rightarrow> real \<Rightarrow> error + array2" where
  "set2 A i j v =
     (if i < nrows A \<and> j < ncols A
      then Inr (A\<lparr>flat := (flat A)[i * ncols A + j := v]\<rparr>)
      else Inl IndexError)"

text \<open>Elementwise operations on arrays of one shape, and a scalar times an array.\<close>

definition map2_array :: "(real \<Rightarrow> real \<Rightarrow> real) \<Rightarrow> array2 \<Rightarrow> array2 \<Rightarrow> array2" where
  "map2_array f A B = A\<lparr>flat := map2 f (flat A) (flat B)\<rparr>"

definition scale_array :: "real \<Rightarrow> array2 \<Rightarrow> array2" where
  "scale_array k A = A\<lparr>flat := map (\<lambda>v. k * v) (flat A)\<rparr>"

text \<open>
  Cell \<open>(i, j)\<close> lies in the slice \<open>[1:-1, 1:-1]\<close> of an \<open>n\<close> by \<open>m\<close> array; every
  other cell is on the first or last row or column.
\<close>

definition interior :: "nat \<Rightarrow> nat \<Rightarrow> nat \<Rightarrow> nat \<Rightarrow> bool" where
  "interior n m i j = (1 \<le> i \<and> i + 1 < n \<and> 1 \<le> j \<and> j + 1 < m)"

definition boundary :: "nat \<Rightarrow> nat \<Rightarrow> nat \<Rightarrow> nat \<Rightarrow> bool" where
  "boundary n m i j = (i = 0 \<or> i = n - 1 \<or> j = 0 \<or> j = m - 1)"

text \<open>
  \<open>A[1:-1, 1:-1] = E\<close>, where \<open>E\<close> is built from slices of the same extent and
  \<open>f i j\<close> is the cell of \<open>E\<close> that lands on \<open>A[i, j]\<close>.
\<close>

definition assign_interior :: "array2 \<Rightarrow> (nat \<Rightarrow> nat \<Rightarrow> real) \<Rightarrow> array2" where
  "assign_interior A f =
     A\<lparr>flat := map (\<lambda>k. let i = k div ncols A; j = k mod ncols A
                        in if interior (nrows A) (ncols A) i j then f i j else flat A ! k)
                 [0..<length (flat A)]\<rparr>"

subsection \<open>The 2-D wave notebook\<close>

text \<open>\<open>np.where((x >= lo) & (x <= hi))[0]\<close>: the indices of the cells in the window, ascending.\<close>

definition where_between :: "real \<Rightarrow> real \<Rightarrow> real list \<Rightarrow> nat list" where
  "where_between lo hi xs = filter (\<lambda>i. lo \<le> xs ! i \<and> xs ! i \<le> hi) [0..<length xs]"

text \<open>
  \<^verbatim>\<open>
  def external_force(x, y, t, B, Nx, Ny):
      u = np.zeros((Nx, Ny))
      if t < 4.0 and t > 1:
          ind_x = np.where((x>= 2.5) & (x<=3.5))[0]
          ind_y = np.where((y>=1.5) & (y<=4.5))[0]
          for ix in ind_x:
              for iy in ind_y:
                  u[ix,iy] = B
      return u
  \<close>
  The two loops, the inner one first; a store outside the array stops both.
\<close>

fun force_row :: "array2 \<Rightarrow> nat \<Rightarrow> nat list \<Rightarrow> real \<Rightarrow> error + array2" where
  "force_row u ix [] B = Inr u"
| "force_row u ix (iy # iys) B =
     (case set2 u ix iy B of Inl e \<Rightarrow> Inl e | Inr u' \<Rightarrow> force_row u' ix iys B)"

fun force_rows :: "array2 \<Rightarrow> nat list \<Rightarrow> nat list \<Rightarrow> real \<Rightarrow> error + array2" where
  "force_rows u [] ind_y B = Inr u"
| "force_rows u (ix # ixs) ind_y B =
     (case force_row u ix ind_y B of Inl e \<Rightarrow> Inl e | Inr u' \<Rightarrow> force_rows u' ixs ind_y B)"

definition external_force ::
  "real list \<Rightarrow> real list \<Rightarrow> real \<Rightarrow> real \<Rightarrow> nat \<Rightarrow> nat \<Rightarrow> error + array2" where
  "external_force x y t B Nx Ny =
     (let u = zeros2 Nx Ny
      in if t < 4 \<and> t > 1
         then (let ind_x = where_between (5 / 2) (7 / 2) x;
                   ind_y = where_between (3 / 2) (9 / 2) y
               in force_rows u ind_x ind_y B)
         else Inr u)"

text \<open>
  The force as the specification words it, at the grid point \<open>(x[i], y[j])\<close>: \<open>B\<close> for
  \<open>2.5 \<le> x[i] \<le> 3.5\<close>, \<open>1.5 \<le> y[j] \<le> 4.5\<close> and \<open>1 < t < 4\<close>, and 0 otherwise.
\<close>

definition force_at :: "real list \<Rightarrow> real list \<Rightarrow> real \<Rightarrow> real \<Rightarrow> nat \<Rightarrow> nat \<Rightarrow> real" where
  "force_at x y t B i j =
     (if 5 / 2 \<le> x ! i \<and> x ! i \<le> 7 / 2 \<and> 3 / 2 \<le> y ! j \<and> y ! j \<le> 9 / 2 \<and> 1 < t \<and> t < 4
      then B else 0)"

text \<open>
  The right-hand side of the assignment to \<open>dy2dt[1:-1, 1:-1]\<close>, at the cell that
  lands on \<open>[i, j]\<close>:
  \<^verbatim>\<open>
  c**2*((y1[2:, 1:-1] - 2*y1[1:-1, 1:-1] + y1[:-2,1:-1] ) / (dx)**2
      + (y1[1:-1, 2:] - 2*y1[1:-1, 1:-1] + y1[1:-1,:-2]) / (dy)**2)
  \<close>
\<close>

definition stencil :: "real \<Rightarrow> real \<Rightarrow> real \<Rightarrow> array2 \<Rightarrow> nat \<Rightarrow> nat \<Rightarrow> real" where
  "stencil c dx dy y1 i j =
     c\<^sup>2 * ((get2 y1 (i + 1) j - 2 * get2 y1 i j + get2 y1 (i - 1) j) / dx\<^sup>2
         + (get2 y1 i (j + 1) - 2 * get2 y1 i j + get2 y1 i (j - 1)) / dy\<^sup>2)"

text \<open>
  The two halves of the flat state, as the first two lines of \<open>odefun\<close> take them, and
  the flat vector its last three lines build.
  \<^verbatim>\<open>
  y1 = u[:Nx*Ny].reshape(Nx,Ny)
  y2 = u[Nx*Ny:].reshape(Nx,Ny)
  ...
  dy1dt = dy1dt.reshape(Nx*Ny,)
  dy2dt = dy2dt.reshape(Nx*Ny,)
  return np.concatenate((dy1dt, dy2dt))
  \<close>
\<close>

definition unpack :: "real list \<Rightarrow> nat \<Rightarrow> nat \<Rightarrow> error + (array2 \<times> array2)" where
  "unpack u Nx Ny =
     bind_res (reshape2 (take (Nx * Ny) u) Nx Ny) (\<lambda>y1.
     bind_res (reshape2 (drop (Nx * Ny) u) Nx Ny) (\<lambda>y2.
     Inr (y1, y2)))"

definition pack :: "array2 \<Rightarrow> array2 \<Rightarrow> nat \<Rightarrow> nat \<Rightarrow> error + real list" where
  "pack dy1dt dy2dt Nx Ny =
     bind_res (reshape1 dy1dt (Nx * Ny)) (\<lambda>d1.
     bind_res (reshape1 dy2dt (Nx * Ny)) (\<lambda>d2.
     Inr (d1 @ d2)))"

text \<open>
  \<^verbatim>\<open>
  def odefun(u, t, B, a, c, x, y, dx, dy, Nx, Ny):
      y1 = u[:Nx*Ny].reshape(Nx,Ny)
      y2 = u[Nx*Ny:].reshape(Nx,Ny)
      dy1dt = y2
      f_ext = external_force(x, y, t, B, Nx, Ny)
      dy2dt = np.zeros((Nx, Ny))
      dy2dt[1:-1, 1:-1] = c**2*(...)
      dy2dt = dy2dt - a*y2 + f_ext
      dy1dt = dy1dt.reshape(Nx*Ny,)
      dy2dt = dy2dt.reshape(Nx*Ny,)
      return np.concatenate((dy1dt, dy2dt))
  \<close>
\<close>

definition wave_odefun ::
  "real list \<Rightarrow> real \<Rightarrow> real \<Rightarrow> real \<Rightarrow> real \<Rightarrow> real list \<Rightarrow> real list \<Rightarrow> real \<Rightarrow> real
     \<Rightarrow> nat \<Rightarrow> nat \<Rightarrow> error + real list" where
  "wave_odefun u t B a c x y dx dy Nx Ny =
     bind_res (unpack u Nx Ny) (\<lambda>(y1, y2).
     let dy1dt = y2
     in bind_res (external_force x y t B Nx Ny) (\<lambda>f_ext.
        let dy2dt0 = zeros2 Nx Ny;
            dy2dt1 = assign_interior dy2dt0 (stencil c dx dy y1);
            dy2dt = map2_array (+) (map2_array (-) dy2dt1 (scale_array a y2)) f_ext
        in pack dy1dt dy2dt Nx Ny))"

text \<open>
  Cell \<open>[i, j]\<close> of \<open>dy2dt\<close> as the three assignments to it leave it: the zero of the
  buffer or, inside \<open>[1:-1, 1:-1]\<close>, the stencil; minus \<open>a\<close> times the velocity; plus
  the force.
\<close>

definition dy2dt_cell ::
  "real list \<Rightarrow> real \<Rightarrow> real \<Rightarrow> real \<Rightarrow> real \<Rightarrow> real list \<Rightarrow> real list \<Rightarrow> real \<Rightarrow> real \<Rightarrow> nat \<Rightarrow> nat
     \<Rightarrow> nat \<Rightarrow> nat \<Rightarrow> real" where
  "dy2dt_cell u t B a c x y dx dy Nx Ny i j =
     (if interior Nx Ny i j
      then stencil c dx dy \<lparr>nrows = Nx, ncols = Ny, flat = take (Nx * Ny) u\<rparr> i j else 0)
     - a * u ! (Nx * Ny + i * Ny + j) + force_at x y t B i j"

text \<open>
  The states whose displacement and velocity are zero on every cell of the first and last
  row and column, for a flat state \<open>u\<close> of an \<open>Nx\<close> by \<open>Ny\<close> grid.
\<close>

definition boundary_zero :: "real list \<Rightarrow> nat \<Rightarrow> nat \<Rightarrow> bool" where
  "boundary_zero u Nx Ny =
     (\<forall>i \<in> {0..<Nx}. \<forall>j \<in> {0..<Ny}.
        boundary Nx Ny i j \<longrightarrow> u ! (i * Ny + j) = 0 \<and> u ! (Nx * Ny + i * Ny + j) = 0)"

text \<open>
  The update every stage of an explicit Runge-Kutta scheme makes: the state plus a step
  size times a right-hand side.
\<close>

definition axpy :: "real \<Rightarrow> real list \<Rightarrow> real list \<Rightarrow> real list" where
  "axpy h k u = map2 (\<lambda>ui ki. ui + h * ki) u k"

subsection \<open>float64\<close>

text \<open>
  A finite float64 is a real number; its arithmetic is the exact operation followed by
  rounding to the nearest float64, ties to the even significand (IEEE 754 binary64: 53
  significant bits, least exponent \<open>-1074\<close> of the unit in the last place, overflow at
  \<open>2^1024\<close>). Signed zeros are not distinguished.

  \<open>rne\<close> rounds to the nearest integer, ties to even. \<open>ulp_exp x\<close> is the exponent of
  the unit in the last place at \<open>x\<close>: \<open>e - 52\<close> for \<open>2^e \<le> |x| < 2^(e+1)\<close>, and not less
  than \<open>-1074\<close>. \<open>fl64r\<close> rounds with an unbounded exponent, and \<open>fl64\<close> gives \<open>None\<close>
  where the rounded value is beyond the largest float64 (the code gets \<open>inf\<close>).
\<close>

definition rne :: "real \<Rightarrow> int" where
  "rne x = (let f = \<lfloor>x\<rfloor>; d = x - of_int f
            in if d < 1 / 2 then f else if 1 / 2 < d then f + 1
               else if even f then f else f + 1)"

definition ulp_exp :: "real \<Rightarrow> int" where
  "ulp_exp x = max (bitlen \<lfloor>\<bar>x\<bar> * 2 ^ 1074\<rfloor> - 53) 0 - 1074"

definition fl64r :: "real \<Rightarrow> real" where
  "fl64r x = of_int (rne (x / 2 powi ulp_exp x)) * 2 powi ulp_exp x"

definition fl64 :: "real \<Rightarrow> real option" where
  "fl64 x = (let r = fl64r x in if \<bar>r\<bar> < 2 ^ 1024 then Some r else None)"

text \<open>
  A float64 cell: \<open>Some v\<close> is the finite value \<open>v\<close>; \<open>None\<close> is a cell that holds \<open>inf\<close>
  or \<open>nan\<close> or was computed from such a cell. The four operations; a division by zero
  gives \<open>inf\<close> or \<open>nan\<close> in numpy, which goes on.
\<close>

type_synonym f64 = "real option"

definition fadd :: "f64 \<Rightarrow> f64 \<Rightarrow> f64" where
  "fadd a b = Option.bind a (\<lambda>x. Option.bind b (\<lambda>y. fl64 (x + y)))"

definition fsub :: "f64 \<Rightarrow> f64 \<Rightarrow> f64" where
  "fsub a b = Option.bind a (\<lambda>x. Option.bind b (\<lambda>y. fl64 (x - y)))"

definition fmul :: "f64 \<Rightarrow> f64 \<Rightarrow> f64" where
  "fmul a b = Option.bind a (\<lambda>x. Option.bind b (\<lambda>y. fl64 (x * y)))"

definition fdiv :: "f64 \<Rightarrow> f64 \<Rightarrow> f64" where
  "fdiv a b = Option.bind a (\<lambda>x. Option.bind b (\<lambda>y. if y = 0 then None else fl64 (x / y)))"



subsection \<open>Grids\<close>


text \<open>
  \<open>np.linspace(start, stop, num)\<close> as numpy computes it in float64 (numpy's own code,
  abridged to the default arguments):
  \<^verbatim>\<open>
  if num < 0: raise ValueError
  div = num - 1
  y = arange(0, num)
  delta = stop - start
  if div > 0:
      step = delta / div
      if step == 0:
          y = y / div
          y = y * delta
      else:
          y = y * step
  else:
      y = y * delta
  y += start
  if num > 1:
      y[-1] = stop
  \<close>
\<close>

definition linspace :: "real \<Rightarrow> real \<Rightarrow> int \<Rightarrow> error + f64 list" where
  "linspace start stop num =
     (if num < 0 then Inl ValueError
      else (let dv = num - 1;
                y = map (\<lambda>i. Some (real i)) [0..<nat num];
                delta = fsub (Some stop) (Some start);
                y1 = (if 0 < dv
                      then (let step = fdiv delta (Some (of_int dv))
                            in if step = Some 0
                               then map (\<lambda>v. fmul (fdiv v (Some (of_int dv))) delta) y
                               else map (\<lambda>v. fmul v step) y)
                      else map (\<lambda>v. fmul v delta) y);
                y2 = map (\<lambda>v. fadd v (Some start)) y1
            in Inr (if 1 < num then y2[nat num - 1 := Some stop] else y2)))"



subsection \<open>Drivers\<close>

text \<open>
  What \<open>solve_ivp\<close> returns, as far as the notebooks read it, and \<open>solve_ivp\<close> itself as
  an argument. It is outside the repository, and a call of it is an effect: the model
  counts the calls, and what a call gives may depend on how many calls came before it.
  So an integrator is a function of the number of earlier calls, the right-hand side, the
  time span, the initial state and the evaluation times that returns a result or raises,
  and a driver takes the number of calls made so far and returns its outcome together
  with the number of calls made after it.
\<close>

record ode_result =
  sol_t :: "real list"
  sol_y :: "real list list"
  sol_status :: int
  sol_message :: string
  sol_success :: bool

type_synonym rhs = "real \<Rightarrow> real list \<Rightarrow> error + real list"

type_synonym integrator =
  "nat \<Rightarrow> rhs \<Rightarrow> real \<times> real \<Rightarrow> real list \<Rightarrow> f64 list \<Rightarrow> error + ode_result"

text \<open>
  \<^verbatim>\<open>
  T_init = np.ones((10,))
  T_init[5] = 4
  solution = solve_ivp(lambda t,y: odefun(t,y,params), (0, 50), T_init, method='RK45',
                       t_eval = np.linspace(0,50,51))
  \<close>
\<close>

definition T_init :: "real list" where
  "T_init = (replicate 10 1)[5 := 4]"

definition heat_driver ::
  "integrator \<Rightarrow> params \<Rightarrow> nat \<Rightarrow> (error + ode_result) \<times> nat" where
  "heat_driver solve_ivp p calls =
     (case linspace 0 50 51 of
        Inl e \<Rightarrow> (Inl e, calls)
      | Inr t_eval \<Rightarrow>
          (solve_ivp calls (\<lambda>t y. heat_odefun t y p) (0, 50) T_init t_eval, Suc calls))"

text \<open>
  \<^verbatim>\<open>
  u_start = np.zeros((2*Nx*Ny,))
  sol = solve_ivp(lambda t,u: odefun(u,t,B,a,c,x,y,dx,dy,Nx,Ny), (0, 100),u_start,
                  t_eval=np.linspace(0,100, 101))
  \<close>
\<close>

definition wave_driver ::
  "integrator \<Rightarrow> real \<Rightarrow> real \<Rightarrow> real \<Rightarrow> real list \<Rightarrow> real list \<Rightarrow> real \<Rightarrow> real \<Rightarrow> nat \<Rightarrow> nat
     \<Rightarrow> nat \<Rightarrow> (error + ode_result) \<times> nat" where
  "wave_driver solve_ivp B a c x y dx dy Nx Ny calls =
     (let u_start = replicate (2 * Nx * Ny) 0
      in case linspace 0 100 101 of
           Inl e \<Rightarrow> (Inl e, calls)
         | Inr t_eval \<Rightarrow>
             (solve_ivp calls (\<lambda>t u. wave_odefun u t B a c x y dx dy Nx Ny) (0, 100)
                u_start t_eval, Suc calls))"

section \<open>The heat right-hand side\<close>

lemma length_diff: "length (diff xs) = length xs - 1"
  by (induction xs rule: diff.induct) auto

lemma nth_diff: "i + 1 < length xs \<Longrightarrow> diff xs ! i = xs ! (i + 1) - xs ! i"
proof (induction xs arbitrary: i rule: diff.induct)
  case (1 u v r)
  then show ?case by (cases i) auto
qed auto

lemma heat_dq:
  assumes "length q = n"
  shows "map2 (+) (take 1 (replicate n 0) @ map (\<lambda>v. - 1 * v) (diff q))
                  (diff q @ drop (n - 1) (replicate n 0))
         = map (dq_spec q n) [0..<n]"
proof (rule nth_equalityI)
  show "length (map2 (+) (take 1 (replicate n 0) @ map (\<lambda>v. - 1 * v) (diff q))
                  (diff q @ drop (n - 1) (replicate n 0))) = length (map (dq_spec q n) [0..<n])"
    using assms by (cases n) (auto simp: length_diff)
next
  fix i
  assume "i < length (map2 (+) (take 1 (replicate n 0) @ map (\<lambda>v. - 1 * v) (diff q))
                  (diff q @ drop (n - 1) (replicate n 0)))"
  then have i: "i < n" using assms by (cases n) (auto simp: length_diff)
  then show "map2 (+) (take 1 (replicate n 0) @ map (\<lambda>v. - 1 * v) (diff q))
                  (diff q @ drop (n - 1) (replicate n 0)) ! i = map (dq_spec q n) [0..<n] ! i"
  proof (cases "i + 1 < n")
    case True
    with i assms show ?thesis
      by (cases i) (auto simp: length_diff nth_diff nth_append dq_spec_def)
  next
    case False
    with i have "n = Suc i" by simp
    with assms show ?thesis
      by (cases i) (auto simp: length_diff nth_diff nth_append dq_spec_def nth_Cons')
  qed
qed

lemma heat_odefun_eq:
  assumes "length y = p_Nx p" "length (p_q p) = p_Nx p" "length (p_x p) = p_Nx p + 1"
    "p_c p \<noteq> 0"
  shows "heat_odefun t y p = Inr (heat_rhs_spec p y)"
proof -
  let ?n = "p_Nx p"
  have sl: "assign_slice (?n - 1) (map (\<lambda>v. - 1 * v) (diff (p_q p))) = Inr (map (\<lambda>v. - 1 * v) (diff (p_q p)))"
    "assign_slice (?n - 1) (diff (p_q p)) = Inr (diff (p_q p))"
    using assms by (simp_all add: assign_slice_def length_diff)
  have dq: "map2 (+) (take 1 (replicate ?n 0) @ map (\<lambda>v. - 1 * v) (diff (p_q p)))
                  (diff (p_q p) @ drop (?n - 1) (replicate ?n 0)) = map (dq_spec (p_q p) ?n) [0..<?n]"
    using assms(2) by (rule heat_dq)
  have b1: "broadcast2 (/) (map (dq_spec (p_q p) ?n) [0..<?n]) (diff (p_x p))
      = Inr (map (\<lambda>i. dq_spec (p_q p) ?n i / (p_x p ! Suc i - p_x p ! i)) [0..<?n])"
    using assms by (auto simp: broadcast2_def length_diff nth_diff intro!: nth_equalityI)
  have b2: "broadcast2 (-) (map (\<lambda>i. dq_spec (p_q p) ?n i / (p_x p ! Suc i - p_x p ! i)) [0..<?n])
       (map (\<lambda>v. v * p_a p) y)
      = Inr (map (\<lambda>i. dq_spec (p_q p) ?n i / (p_x p ! Suc i - p_x p ! i) - p_a p * y ! i) [0..<?n])"
    using assms by (auto simp: broadcast2_def intro!: nth_equalityI)
  show ?thesis
    unfolding heat_odefun_def Let_def sl bind_res.simps dq
    using assms(4) by (simp add: b1 b2 heat_rhs_spec_def inverse_eq_divide)
qed


text \<open>
  C3. With parameters of the declared sizes (\<open>q\<close> of length \<open>Nx\<close>, grid \<open>x\<close> of length
  \<open>Nx + 1\<close>, \<open>c\<close> not zero), for every time and every state of length \<open>Nx\<close> the
  right-hand side returns, cell by cell, \<open>-(1/C) (dq[i]/\<Delta>x[i] - a y[i])\<close>, where \<open>dq[i]\<close>
  has the left part \<open>-(q[i] - q[i-1])\<close> only for \<open>i \<ge> 1\<close> and the right part
  \<open>q[i+1] - q[i]\<close> only for \<open>i < Nx - 1\<close>, and \<open>\<Delta>x\<close> is the forward difference of the grid. So \<open>dq[0]\<close> has no left part
  and \<open>dq[Nx - 1]\<close> no right part.
\<close>

theorem heat_odefun_spec:
  assumes "length y = p_Nx p" "length (p_q p) = p_Nx p" "length (p_x p) = p_Nx p + 1"
    "p_c p \<noteq> 0"
  shows "heat_odefun t y p = Inr (heat_rhs_spec p y) \<and>
         dq_spec (p_q p) (p_Nx p) 0 = (if 1 < p_Nx p then p_q p ! 1 - p_q p ! 0 else 0) \<and>
         dq_spec (p_q p) (p_Nx p) (p_Nx p - 1) =
           (if 1 < p_Nx p then - (p_q p ! (p_Nx p - 1) - p_q p ! (p_Nx p - 2)) else 0)"
proof -
  have "dq_spec (p_q p) (p_Nx p) (p_Nx p - 1) =
           (if 1 < p_Nx p then - (p_q p ! (p_Nx p - 1) - p_q p ! (p_Nx p - 2)) else 0)"
    by (cases "p_Nx p") (auto simp: dq_spec_def numeral_2_eq_2)
  then show ?thesis
    using heat_odefun_eq [OF assms, of t] by (simp add: dq_spec_def)
qed

theorem heat_odefun_spec_witness:
  "length [4, 5, 6 :: real] = 3 \<and>
   heat_odefun 0 [4, 5, 6] \<lparr>p_c = 2, p_q = [1, 3, 6], p_x = [0, 1, 2, 3], p_a = 1 / 2, p_Nx = 3\<rparr>
     = Inr [0, 3 / 4, 3]"
  using heat_odefun_spec [of "[4, 5, 6]"
      "\<lparr>p_c = 2, p_q = [1, 3, 6], p_x = [0, 1, 2, 3], p_a = 1 / 2, p_Nx = 3\<rparr>" 0]
  by (simp add: heat_rhs_spec_def dq_spec_def upt_conv_Cons)










section \<open>The wave right-hand side\<close>

lemma idx_less: "i < n \<Longrightarrow> j < m \<Longrightarrow> i * m + j < n * (m::nat)"
proof -
  assume a: "i < n" "j < m"
  then have "i * m + j < Suc i * m" by simp
  also have "\<dots> \<le> n * m" using a(1) by (intro mult_le_mono1) simp
  finally show ?thesis .
qed

lemma idx_eq: "j < m \<Longrightarrow> (k = i * m + j) = (k div m = i \<and> k mod m = (j::nat))"
  by (auto simp: algebra_simps)

lemma nth_update_if: "k < length xs \<Longrightarrow> xs[p := v] ! k = (if k = p then v else xs ! k)"
  by auto

lemma force_row_eq:
  assumes "ix < nrows u" "\<forall>iy \<in> set iys. iy < ncols u"
  shows "force_row u ix iys B =
    Inr (u\<lparr>flat := map (\<lambda>k. if k div ncols u = ix \<and> k mod ncols u \<in> set iys then B else flat u ! k)
                  [0..<length (flat u)]\<rparr>)"
  using assms
proof (induction iys arbitrary: u)
  case Nil
  then show ?case by (simp add: map_nth)
next
  case (Cons iy iys)
  let ?u1 = "u\<lparr>flat := (flat u)[ix * ncols u + iy := B]\<rparr>"
  have s: "set2 u ix iy B = Inr ?u1" using Cons.prems by (simp add: set2_def)
  have "force_row ?u1 ix iys B =
    Inr (?u1\<lparr>flat := map (\<lambda>k. if k div ncols ?u1 = ix \<and> k mod ncols ?u1 \<in> set iys then B else flat ?u1 ! k)
                  [0..<length (flat ?u1)]\<rparr>)"
    using Cons.prems by (intro Cons.IH) simp_all
  moreover have "map (\<lambda>k. if k div ncols ?u1 = ix \<and> k mod ncols ?u1 \<in> set iys then B else flat ?u1 ! k)
                  [0..<length (flat ?u1)] =
     map (\<lambda>k. if k div ncols u = ix \<and> k mod ncols u \<in> set (iy # iys) then B else flat u ! k)
                  [0..<length (flat u)]"
    using Cons.prems by (auto simp: nth_update_if idx_eq)
  ultimately show ?case by (simp add: s)
qed

lemma force_rows_eq:
  assumes "\<forall>ix \<in> set ixs. ix < nrows u" "\<forall>iy \<in> set iys. iy < ncols u"
  shows "force_rows u ixs iys B =
    Inr (u\<lparr>flat := map (\<lambda>k. if k div ncols u \<in> set ixs \<and> k mod ncols u \<in> set iys then B else flat u ! k)
                  [0..<length (flat u)]\<rparr>)"
  using assms
proof (induction ixs arbitrary: u)
  case Nil
  then show ?case by (simp add: map_nth)
next
  case (Cons ix ixs)
  let ?u1 = "u\<lparr>flat := map (\<lambda>k. if k div ncols u = ix \<and> k mod ncols u \<in> set iys then B else flat u ! k)
                  [0..<length (flat u)]\<rparr>"
  have s: "force_row u ix iys B = Inr ?u1" using Cons.prems by (intro force_row_eq) simp_all
  have "force_rows ?u1 ixs iys B =
    Inr (?u1\<lparr>flat := map (\<lambda>k. if k div ncols ?u1 \<in> set ixs \<and> k mod ncols ?u1 \<in> set iys then B else flat ?u1 ! k)
                  [0..<length (flat ?u1)]\<rparr>)"
    using Cons.prems by (intro Cons.IH) simp_all
  moreover have "map (\<lambda>k. if k div ncols ?u1 \<in> set ixs \<and> k mod ncols ?u1 \<in> set iys then B else flat ?u1 ! k)
                  [0..<length (flat ?u1)] =
     map (\<lambda>k. if k div ncols u \<in> set (ix # ixs) \<and> k mod ncols u \<in> set iys then B else flat u ! k)
                  [0..<length (flat u)]"
    by auto
  ultimately show ?case by (simp add: s)
qed

lemma set_where_between: "set (where_between lo hi xs) = {i. i < length xs \<and> lo \<le> xs ! i \<and> xs ! i \<le> hi}"
  by (auto simp: where_between_def)

lemma div_less_rows: "k < n * m \<Longrightarrow> k div m < (n::nat)"
  by (simp add: less_mult_imp_div_less)

lemma mod_less_cols: "k < n * m \<Longrightarrow> k mod m < (m::nat)"
  by (cases "m = 0") auto

lemma external_force_eq:
  assumes "length x = Nx" "length y = Ny"
  shows "external_force x y t B Nx Ny =
    Inr \<lparr>nrows = Nx, ncols = Ny,
         flat = map (\<lambda>k. force_at x y t B (k div Ny) (k mod Ny)) [0..<Nx * Ny]\<rparr>"
proof (cases "t < 4 \<and> t > 1")
  case False
  then show ?thesis
    by (auto simp: external_force_def zeros2_def force_at_def intro!: nth_equalityI)
next
  case True
  have "force_rows (zeros2 Nx Ny) (where_between (5 / 2) (7 / 2) x) (where_between (3 / 2) (9 / 2) y) B
    = Inr ((zeros2 Nx Ny)\<lparr>flat := map (\<lambda>k. if k div ncols (zeros2 Nx Ny) \<in> set (where_between (5 / 2) (7 / 2) x)
         \<and> k mod ncols (zeros2 Nx Ny) \<in> set (where_between (3 / 2) (9 / 2) y) then B else flat (zeros2 Nx Ny) ! k)
                  [0..<length (flat (zeros2 Nx Ny))]\<rparr>)"
    using assms by (intro force_rows_eq) (simp_all add: set_where_between zeros2_def)
  moreover have "map (\<lambda>k. if k div ncols (zeros2 Nx Ny) \<in> set (where_between (5 / 2) (7 / 2) x)
         \<and> k mod ncols (zeros2 Nx Ny) \<in> set (where_between (3 / 2) (9 / 2) y) then B else flat (zeros2 Nx Ny) ! k)
                  [0..<length (flat (zeros2 Nx Ny))]
      = map (\<lambda>k. force_at x y t B (k div Ny) (k mod Ny)) [0..<Nx * Ny]"
    using assms True
    by (auto simp: set_where_between zeros2_def force_at_def div_less_rows mod_less_cols)
  ultimately show ?thesis
    using True by (simp add: external_force_def zeros2_def)
qed

lemma unpack_eq:
  assumes "length u = 2 * Nx * Ny"
  shows "unpack u Nx Ny =
    Inr (\<lparr>nrows = Nx, ncols = Ny, flat = take (Nx * Ny) u\<rparr>,
         \<lparr>nrows = Nx, ncols = Ny, flat = drop (Nx * Ny) u\<rparr>)"
  using assms by (simp add: unpack_def reshape2_def)

lemma unpack_error:
  assumes "length u \<noteq> 2 * Nx * Ny"
  shows "unpack u Nx Ny = Inl ValueError"
  using assms by (auto simp: unpack_def reshape2_def min_def)

lemma assign_interior_zeros:
  "assign_interior (zeros2 Nx Ny) f =
     \<lparr>nrows = Nx, ncols = Ny,
      flat = map (\<lambda>k. if interior Nx Ny (k div Ny) (k mod Ny) then f (k div Ny) (k mod Ny) else 0)
               [0..<Nx * Ny]\<rparr>"
  by (auto simp: assign_interior_def zeros2_def Let_def)

lemma wave_odefun_eq:
  assumes "length u = 2 * Nx * Ny" "length x = Nx" "length y = Ny"
  shows "wave_odefun u t B a c x y dx dy Nx Ny =
    Inr (drop (Nx * Ny) u @
         map (\<lambda>k. dy2dt_cell u t B a c x y dx dy Nx Ny (k div Ny) (k mod Ny)) [0..<Nx * Ny])"
proof -
  have len: "length (drop (Nx * Ny) u) = Nx * Ny" using assms(1) by simp
  have cells: "map2 (+)
       (map2 (-)
          (map (\<lambda>k. if interior Nx Ny (k div Ny) (k mod Ny)
                     then stencil c dx dy \<lparr>nrows = Nx, ncols = Ny, flat = take (Nx * Ny) u\<rparr> (k div Ny) (k mod Ny)
                     else 0) [0..<Nx * Ny])
          (map (\<lambda>v. a * v) (drop (Nx * Ny) u)))
       (map (\<lambda>k. force_at x y t B (k div Ny) (k mod Ny)) [0..<Nx * Ny])
     = map (\<lambda>k. dy2dt_cell u t B a c x y dx dy Nx Ny (k div Ny) (k mod Ny)) [0..<Nx * Ny]"
    using assms(1) by (auto simp: dy2dt_cell_def add.assoc intro!: nth_equalityI)
  show ?thesis
    unfolding wave_odefun_def unpack_eq [OF assms(1)] external_force_eq [OF assms(2,3)]
    using len
    by (simp add: pack_def reshape1_def assign_interior_zeros map2_array_def
        scale_array_def Let_def cells)
qed

lemma boundary_iff: "i < n \<Longrightarrow> j < m \<Longrightarrow> boundary n m i j = (\<not> interior n m i j)"
  by (auto simp: boundary_def interior_def)

lemma wave_odefun_cell:
  assumes "length u = 2 * Nx * Ny" "length x = Nx" "length y = Ny"
  shows "\<exists>r. wave_odefun u t B a c x y dx dy Nx Ny = Inr r \<and> length r = 2 * Nx * Ny \<and>
     (\<forall>i<Nx. \<forall>j<Ny. r ! (i * Ny + j) = u ! (Nx * Ny + i * Ny + j) \<and>
          r ! (Nx * Ny + i * Ny + j) = dy2dt_cell u t B a c x y dx dy Nx Ny i j)"
proof -
  let ?r = "drop (Nx * Ny) u @
         map (\<lambda>k. dy2dt_cell u t B a c x y dx dy Nx Ny (k div Ny) (k mod Ny)) [0..<Nx * Ny]"
  have "r1": "?r ! (i * Ny + j) = u ! (Nx * Ny + i * Ny + j)" 
    and "r2": "?r ! (Nx * Ny + i * Ny + j) = dy2dt_cell u t B a c x y dx dy Nx Ny i j"
    if "i < Nx" "j < Ny" for i j
  proof -
    have k: "i * Ny + j < Nx * Ny" using that by (rule idx_less)
    show "?r ! (i * Ny + j) = u ! (Nx * Ny + i * Ny + j)"
      using k assms(1) by (simp add: nth_append add.assoc)
    have "?r ! (Nx * Ny + (i * Ny + j)) =
       map (\<lambda>k. dy2dt_cell u t B a c x y dx dy Nx Ny (k div Ny) (k mod Ny)) [0..<Nx * Ny] ! (i * Ny + j)"
      using assms(1) by (subst nth_append_length_plus [symmetric, where xs = "drop (Nx * Ny) u"]) simp
    then show "?r ! (Nx * Ny + i * Ny + j) = dy2dt_cell u t B a c x y dx dy Nx Ny i j"
      using k that(2) by (simp add: add.assoc)
  qed
  moreover have "length ?r = 2 * Nx * Ny" using assms(1) by simp
  ultimately show ?thesis
    using wave_odefun_eq [OF assms, of t B a c dx dy] by auto
qed

text \<open>
  C1, as the code has it. For a state of length \<open>2 Nx Ny\<close> and grids of lengths \<open>Nx\<close>
  and \<open>Ny\<close>, every cell of the \<open>dy2/dt\<close> half on the first or last row or column holds
  \<open>- a y2[i, j] + f_ext[i, j]\<close>: the stencil term is never added there, the damping term
  and the external force are.
\<close>

theorem wave_odefun_boundary_cells:
  assumes "length u = 2 * Nx * Ny" "length x = Nx" "length y = Ny"
  shows "\<exists>r. wave_odefun u t B a c x y dx dy Nx Ny = Inr r \<and> length r = 2 * Nx * Ny \<and>
     (\<forall>i<Nx. \<forall>j<Ny. boundary Nx Ny i j \<longrightarrow>
        r ! (Nx * Ny + i * Ny + j) = - a * u ! (Nx * Ny + i * Ny + j) + force_at x y t B i j)"
proof -
  from wave_odefun_cell [OF assms, of t B a c dx dy] obtain r where
    r: "wave_odefun u t B a c x y dx dy Nx Ny = Inr r" "length r = 2 * Nx * Ny"
      "\<And>i j. i < Nx \<Longrightarrow> j < Ny \<Longrightarrow> r ! (Nx * Ny + i * Ny + j) = dy2dt_cell u t B a c x y dx dy Nx Ny i j"
    by blast
  have "r ! (Nx * Ny + i * Ny + j) = - a * u ! (Nx * Ny + i * Ny + j) + force_at x y t B i j"
    if "i < Nx" "j < Ny" "boundary Nx Ny i j" for i j
    using r(3) [OF that(1,2)] that by (simp add: dy2dt_cell_def boundary_iff)
  with r(1,2) show ?thesis by blast
qed

theorem wave_odefun_boundary_cells_witness:
  "wave_odefun [1, 2, 3, 4, 5, 6, 7, 8] 2 5 2 1 [3, 10] [2, 10] 1 1 2 2
     = Inr [5, 6, 7, 8, - 5, - 12, - 14, - 16] \<and>
   boundary 2 2 0 0 \<and>
   [5, 6, 7, 8, - 5, - 12, - 14, - 16 :: real] ! (2 * 2 + 0 * 2 + 0)
     = - 2 * [1, 2, 3, 4, 5, 6, 7, 8] ! (2 * 2 + 0 * 2 + 0) + force_at [3, 10] [2, 10] 2 5 0 0"
  using wave_odefun_boundary_cells [of "[1, 2, 3, 4, 5, 6, 7, 8]" 2 2 "[3, 10]" "[2, 10]" 2 5 2 1 1 1]
  by (simp add: wave_odefun_eq dy2dt_cell_def interior_def stencil_def get2_def force_at_def
      upt_conv_Cons boundary_def)

text \<open>
  The claim C1 as it is worded fails: with velocity 1 everywhere and damping \<open>a = 1\<close>,
  the boundary cell \<open>(0, 0)\<close> of the \<open>dy2/dt\<close> half holds \<open>-1\<close>, not 0.
\<close>

theorem wave_odefun_boundary_counterexample:
  "wave_odefun [0, 0, 0, 0, 0, 0, 0, 0, 0, 1, 1, 1, 1, 1, 1, 1, 1, 1] 2 1 1 1
       [0, 3, 10] [0, 3, 10] 1 1 3 3
     = Inr [1, 1, 1, 1, 1, 1, 1, 1, 1, - 1, - 1, - 1, - 1, 0, - 1, - 1, - 1, - 1] \<and>
   boundary 3 3 0 0 \<and>
   [1, 1, 1, 1, 1, 1, 1, 1, 1, - 1, - 1, - 1, - 1, 0, - 1, - 1, - 1, - 1 :: real] ! (3 * 3 + 0 * 3 + 0)
     \<noteq> 0"
  by (simp add: wave_odefun_eq dy2dt_cell_def interior_def stencil_def get2_def force_at_def
      upt_conv_Cons boundary_def)

text \<open>
  C2. For grids of lengths \<open>Nx\<close> and \<open>Ny\<close>, \<open>external_force\<close> returns an \<open>Nx\<close> by \<open>Ny\<close>
  array that holds exactly \<open>B\<close> at \<open>(i, j)\<close> when \<open>2.5 \<le> x[i] \<le> 3.5\<close>,
  \<open>1.5 \<le> y[j] \<le> 4.5\<close> and \<open>1 < t < 4\<close> (space bounds inclusive, time bounds strict), and
  exactly 0 at every other cell and time.
\<close>

theorem external_force_window:
  assumes "length x = Nx" "length y = Ny"
  shows "\<exists>u. external_force x y t B Nx Ny = Inr u \<and> nrows u = Nx \<and> ncols u = Ny \<and>
           length (flat u) = Nx * Ny \<and>
           (\<forall>i<Nx. \<forall>j<Ny. get2 u i j =
              (if 5 / 2 \<le> x ! i \<and> x ! i \<le> 7 / 2 \<and> 3 / 2 \<le> y ! j \<and> y ! j \<le> 9 / 2 \<and> 1 < t \<and> t < 4
               then B else 0))"
proof -
  have "get2 \<lparr>nrows = Nx, ncols = Ny,
         flat = map (\<lambda>k. force_at x y t B (k div Ny) (k mod Ny)) [0..<Nx * Ny]\<rparr> i j
        = force_at x y t B i j" if "i < Nx" "j < Ny" for i j
    using idx_less [OF that] that(2) by (simp add: get2_def)
  then show ?thesis
    unfolding external_force_eq [OF assms] by (simp add: force_at_def)
qed

theorem external_force_window_witness:
  "external_force [5 / 2, 7 / 2, 4] [3 / 2, 5] 2 7 3 2
     = Inr \<lparr>nrows = 3, ncols = 2, flat = [7, 0, 7, 0, 0, 0]\<rparr> \<and>
   external_force [5 / 2, 7 / 2, 4] [3 / 2, 5] 1 7 3 2
     = Inr \<lparr>nrows = 3, ncols = 2, flat = [0, 0, 0, 0, 0, 0]\<rparr> \<and>
   external_force [5 / 2, 7 / 2, 4] [3 / 2, 5] 4 7 3 2
     = Inr \<lparr>nrows = 3, ncols = 2, flat = [0, 0, 0, 0, 0, 0]\<rparr>"
  using external_force_window [of "[5 / 2, 7 / 2, 4]" 3 "[3 / 2, 5]" 2 2 7]
  by (simp add: external_force_eq force_at_def upt_conv_Cons)

text \<open>
  C4. Packing two \<open>Nx\<close> by \<open>Ny\<close> fields into a flat vector and unpacking that vector
  gives the two fields back, values and shapes.
\<close>

theorem pack_unpack_roundtrip:
  assumes "nrows y1 = Nx" "ncols y1 = Ny" "length (flat y1) = Nx * Ny"
    and "nrows y2 = Nx" "ncols y2 = Ny" "length (flat y2) = Nx * Ny"
  shows "bind_res (pack y1 y2 Nx Ny) (\<lambda>u. unpack u Nx Ny) = Inr (y1, y2)"
  using assms by (simp add: pack_def unpack_def reshape1_def reshape2_def)

theorem pack_unpack_roundtrip_witness:
  "pack \<lparr>nrows = 2, ncols = 2, flat = [1, 2, 3, 4]\<rparr> \<lparr>nrows = 2, ncols = 2, flat = [5, 6, 7, 8]\<rparr> 2 2
     = Inr [1, 2, 3, 4, 5, 6, 7, 8] \<and>
   unpack [1, 2, 3, 4, 5, 6, 7, 8] 2 2
     = Inr (\<lparr>nrows = 2, ncols = 2, flat = [1, 2, 3, 4]\<rparr>, \<lparr>nrows = 2, ncols = 2, flat = [5, 6, 7, 8]\<rparr>)"
  using pack_unpack_roundtrip [of "\<lparr>nrows = 2, ncols = 2, flat = [1, 2, 3, 4]\<rparr>" 2 2 
      "\<lparr>nrows = 2, ncols = 2, flat = [5, 6, 7, 8]\<rparr>"]
  by (simp add: pack_def unpack_def reshape1_def reshape2_def)

text \<open>
  C5. If displacement and velocity are 0 on every boundary cell, and the first and last
  grid coordinates lie outside the forcing window, then the right-hand side is 0 on every
  boundary cell of both halves. The all-zero initial state is such a state, and these
  states are closed under the update \<open>u + h f(t, u)\<close> for every step size \<open>h\<close>.
\<close>

theorem wave_boundary_zero_invariant:
  assumes "length u = 2 * Nx * Ny" "length x = Nx" "length y = Ny"
    and "boundary_zero u Nx Ny"
    and "\<not> (5 / 2 \<le> x ! 0 \<and> x ! 0 \<le> 7 / 2)" "\<not> (5 / 2 \<le> x ! (Nx - 1) \<and> x ! (Nx - 1) \<le> 7 / 2)"
    and "\<not> (3 / 2 \<le> y ! 0 \<and> y ! 0 \<le> 9 / 2)" "\<not> (3 / 2 \<le> y ! (Ny - 1) \<and> y ! (Ny - 1) \<le> 9 / 2)"
  shows "boundary_zero (replicate (2 * Nx * Ny) 0) Nx Ny \<and>
         (\<exists>r. wave_odefun u t B a c x y dx dy Nx Ny = Inr r \<and> length r = 2 * Nx * Ny \<and>
           boundary_zero r Nx Ny \<and> (\<forall>h. boundary_zero (axpy h r u) Nx Ny))"
proof -
  from wave_odefun_cell [OF assms(1-3), of t B a c dx dy] obtain r where
    r: "wave_odefun u t B a c x y dx dy Nx Ny = Inr r" "length r = 2 * Nx * Ny"
      "\<And>i j. i < Nx \<Longrightarrow> j < Ny \<Longrightarrow> r ! (i * Ny + j) = u ! (Nx * Ny + i * Ny + j)"
      "\<And>i j. i < Nx \<Longrightarrow> j < Ny \<Longrightarrow> r ! (Nx * Ny + i * Ny + j) = dy2dt_cell u t B a c x y dx dy Nx Ny i j"
    by blast
  have f0: "force_at x y t B i j = 0" if "boundary Nx Ny i j" for i j
    using that assms(5-8) by (auto simp: boundary_def force_at_def)
  have u0: "u ! (i * Ny + j) = 0" "u ! (Nx * Ny + i * Ny + j) = 0"
    if "i < Nx" "j < Ny" "boundary Nx Ny i j" for i j
    using assms(4) that by (auto simp: boundary_zero_def)
  have r0: "r ! (i * Ny + j) = 0" "r ! (Nx * Ny + i * Ny + j) = 0"
    if "i < Nx" "j < Ny" "boundary Nx Ny i j" for i j
    using r(3,4) [OF that(1,2)] u0 [OF that] f0 [OF that(3)] that
    by (simp_all add: dy2dt_cell_def boundary_iff)
  have bz: "boundary_zero r Nx Ny"
    using r0 by (auto simp: boundary_zero_def)
  have ax: "boundary_zero (axpy h r u) Nx Ny" for h
    unfolding boundary_zero_def
  proof (intro ballI impI)
    fix i j assume ij: "i \<in> {0..<Nx}" "j \<in> {0..<Ny}" "boundary Nx Ny i j"
    then have lt: "i < Nx" "j < Ny" by simp_all
    have k: "i * Ny + j < Nx * Ny" using lt by (rule idx_less)
    then have k1: "i * Ny + j < length u" "i * Ny + j < length r"
      and k2: "Nx * Ny + i * Ny + j < length u" "Nx * Ny + i * Ny + j < length r"
      using assms(1) r(2) by simp_all
    show "axpy h r u ! (i * Ny + j) = 0 \<and> axpy h r u ! (Nx * Ny + i * Ny + j) = 0"
      using k1 k2 u0 [OF lt ij(3)] r0 [OF lt ij(3)] by (simp add: axpy_def)
  qed
  have z: "boundary_zero (replicate (2 * Nx * Ny) 0) Nx Ny"
    unfolding boundary_zero_def
  proof (intro ballI impI)
    fix i j assume "i \<in> {0..<Nx}" "j \<in> {0..<Ny}"
    then have "i * Ny + j < Nx * Ny" by (simp add: idx_less)
    then show "replicate (2 * Nx * Ny) 0 ! (i * Ny + j) = (0::real) \<and>
               replicate (2 * Nx * Ny) 0 ! (Nx * Ny + i * Ny + j) = (0::real)"
      by simp
  qed
  from r(1,2) bz ax z show ?thesis by blast
qed

theorem wave_boundary_zero_invariant_witness:
  "boundary_zero [0, 0, 0, 0, 1, 0, 0, 0, 0, 0, 0, 0, 0, 2, 0, 0, 0, 0] 3 3 \<and>
   wave_odefun [0, 0, 0, 0, 1, 0, 0, 0, 0, 0, 0, 0, 0, 2, 0, 0, 0, 0] 2 1 1 1
       [0, 3, 10] [0, 3, 10] 1 1 3 3
     = Inr [0, 0, 0, 0, 2, 0, 0, 0, 0, 0, 0, 0, 0, - 5, 0, 0, 0, 0] \<and>
   boundary_zero [0, 0, 0, 0, 2, 0, 0, 0, 0, 0, 0, 0, 0, - 5, 0, 0, 0, 0] 3 3"
proof -
  have b: "boundary_zero [0, 0, 0, 0, 1, 0, 0, 0, 0, 0, 0, 0, 0, 2, 0, 0, 0, 0] 3 3"
    unfolding boundary_zero_def boundary_def
    by (simp add: atLeast0_lessThan_Suc numeral_3_eq_3)
  have e: "wave_odefun [0, 0, 0, 0, 1, 0, 0, 0, 0, 0, 0, 0, 0, 2, 0, 0, 0, 0] 2 1 1 1
       [0, 3, 10] [0, 3, 10] 1 1 3 3
     = Inr [0, 0, 0, 0, 2, 0, 0, 0, 0, 0, 0, 0, 0, - 5, 0, 0, 0, 0]"
    by (simp add: wave_odefun_eq dy2dt_cell_def interior_def stencil_def get2_def force_at_def
        upt_conv_Cons)
  have "\<exists>r. wave_odefun [0, 0, 0, 0, 1, 0, 0, 0, 0, 0, 0, 0, 0, 2, 0, 0, 0, 0] 2 1 1 1
       [0, 3, 10] [0, 3, 10] 1 1 3 3 = Inr r \<and> length r = 2 * 3 * 3 \<and> boundary_zero r 3 3 \<and>
       (\<forall>h. boundary_zero (axpy h r [0, 0, 0, 0, 1, 0, 0, 0, 0, 0, 0, 0, 0, 2, 0, 0, 0, 0]) 3 3)"
    using wave_boundary_zero_invariant [OF _ _ _ b, of "[0, 3, 10]" "[0, 3, 10]" 2 1 1 1 1 1]
    by simp
  with e b show ?thesis by auto
qed

text \<open>
  C7, as the code has it. A flat vector whose length is not \<open>2 Nx Ny\<close> makes the wave
  right-hand side raise \<open>ValueError\<close> (from \<open>reshape\<close>). The heat right-hand side raises
  \<open>ValueError\<close> (from broadcasting) when the length of the state is neither \<open>Nx\<close> nor 1
  and \<open>Nx\<close> is not 1.
\<close>

theorem assembler_length_mismatch:
  "(length u \<noteq> 2 * Nx * Ny \<longrightarrow> wave_odefun u t B a c x y dx dy Nx Ny = Inl ValueError) \<and>
   (length (p_q p) = p_Nx p \<and> length (p_x p) = p_Nx p + 1 \<and> p_c p \<noteq> 0 \<and>
    length v \<noteq> p_Nx p \<and> length v \<noteq> 1 \<and> p_Nx p \<noteq> 1
      \<longrightarrow> heat_odefun t' v p = Inl ValueError)"
proof (intro conjI impI)
  assume "length u \<noteq> 2 * Nx * Ny"
  then show "wave_odefun u t B a c x y dx dy Nx Ny = Inl ValueError"
    by (simp add: wave_odefun_def unpack_error)
next
  assume a: "length (p_q p) = p_Nx p \<and> length (p_x p) = p_Nx p + 1 \<and> p_c p \<noteq> 0 \<and>
    length v \<noteq> p_Nx p \<and> length v \<noteq> 1 \<and> p_Nx p \<noteq> 1"
  let ?n = "p_Nx p"
  have sl: "assign_slice (?n - 1) (map (\<lambda>v. - 1 * v) (diff (p_q p))) = Inr (map (\<lambda>v. - 1 * v) (diff (p_q p)))"
    "assign_slice (?n - 1) (diff (p_q p)) = Inr (diff (p_q p))"
    using a by (simp_all add: assign_slice_def length_diff)
  have dq: "map2 (+) (take 1 (replicate ?n 0) @ map (\<lambda>v. - 1 * v) (diff (p_q p)))
                  (diff (p_q p) @ drop (?n - 1) (replicate ?n 0)) = map (dq_spec (p_q p) ?n) [0..<?n]"
    using a by (intro heat_dq) simp
  have b1: "broadcast2 (/) (map (dq_spec (p_q p) ?n) [0..<?n]) (diff (p_x p)) = Inr d \<Longrightarrow> length d = ?n" for d
    using a by (auto simp: broadcast2_def length_diff)
  have b1': "\<exists>d. broadcast2 (/) (map (dq_spec (p_q p) ?n) [0..<?n]) (diff (p_x p)) = Inr d \<and> length d = ?n"
    using a by (auto simp: broadcast2_def length_diff)
  then obtain d where d: "broadcast2 (/) (map (dq_spec (p_q p) ?n) [0..<?n]) (diff (p_x p)) = Inr d" "length d = ?n"
    by blast
  have b2: "broadcast2 (-) d (map (\<lambda>w. w * p_a p) v) = Inl ValueError"
    using a d(2) by (auto simp: broadcast2_def)
  show "heat_odefun t' v p = Inl ValueError"
    unfolding heat_odefun_def Let_def sl bind_res.simps dq
    using a by (simp add: d b2)
qed

theorem assembler_length_mismatch_witness:
  "wave_odefun [1] 0 1 1 1 [0] [0] 1 1 1 1 = Inl ValueError \<and>
   heat_odefun 0 [4, 5] \<lparr>p_c = 2, p_q = [1, 3, 6], p_x = [0, 1, 2, 3], p_a = 1 / 2, p_Nx = 3\<rparr>
     = Inl ValueError"
  using assembler_length_mismatch [where u = "[1]" and Nx = 1 and Ny = 1 and t = 0 and B = 1
      and a = 1 and c = 1 and x = "[0]" and y = "[0]" and dx = 1 and dy = 1 and t' = 0
      and p = "\<lparr>p_c = 2, p_q = [1, 3, 6], p_x = [0, 1, 2, 3], p_a = 1 / 2, p_Nx = 3\<rparr>"
      and v = "[4, 5]"]
  by simp

text \<open>
  The claim C7 as it is worded fails: the heat right-hand side accepts a state of length 1
  for \<open>Nx = 3\<close> and returns a vector of length 3, and what the wave right-hand side
  raises on a wrong length is \<open>ValueError\<close>.
\<close>

theorem assembler_length_mismatch_counterexample:
  "length [4 :: real] \<noteq> 3 \<and>
   heat_odefun 0 [4] \<lparr>p_c = 2, p_q = [1, 3, 6], p_x = [0, 1, 2, 3], p_a = 1 / 2, p_Nx = 3\<rparr>
     = Inr [0, 1 / 2, 5 / 2] \<and>
   length [1 :: real] \<noteq> 2 * 1 * 1 \<and>
   wave_odefun [1] 0 1 1 1 [0] [0] 1 1 1 1 \<noteq> Inl ShapeMismatchError"
  by (simp add: heat_odefun_def assign_slice_def broadcast2_def wave_odefun_def unpack_def
      reshape2_def)

section \<open>float64 rounding\<close>

text \<open>
  Rounding to the nearest integer is within a half and fixes the integers; the unit in the
  last place follows the binade of the argument; rounding to float64 is within half a
  unit in the last place, at most doubles the magnitude, keeps values of at least 1 at
  least 1, and fixes the natural numbers below \<open>2^53\<close>.
\<close>

lemma rne_cases: "rne z = \<lfloor>z\<rfloor> \<or> rne z = \<lfloor>z\<rfloor> + 1"
  by (simp add: rne_def Let_def)

lemma rne_err: "\<bar>of_int (rne z) - z\<bar> \<le> 1 / 2"
proof -
  have "of_int \<lfloor>z\<rfloor> \<le> z" "z < of_int \<lfloor>z\<rfloor> + 1" by linarith+
  then show ?thesis
    unfolding rne_def Let_def by (auto simp: abs_le_iff)
qed

lemma rne_of_int [simp]: "rne (of_int k) = k"
  by (simp add: rne_def)


lemma rne_le: "z \<le> of_int k \<Longrightarrow> rne z \<le> k"
proof (cases "z = of_int k")
  case True
  then show ?thesis by simp
next
  case False
  assume "z \<le> of_int k"
  with False have "z < of_int k" by simp
  then have "\<lfloor>z\<rfloor> < k" by (simp add: floor_less_iff)
  then show ?thesis using rne_cases [of z] by linarith
qed

lemma ulp_exp_ge: "- 1074 \<le> ulp_exp x"
  by (simp add: ulp_exp_def)


lemma pow2_scale: "(2::real) powi e * 2 ^ 1074 = 2 powi (e + 1074)"
  by (simp add: power_int_add)


lemma ulp_exp_subnormal:
  assumes "\<bar>x\<bar> < 2 powi (- 1022)"
  shows "ulp_exp x = - 1074"
proof -
  have "\<bar>x\<bar> * 2 ^ 1074 < 2 powi (- 1022) * 2 ^ 1074" using assms by simp
  also have "\<dots> = 2 ^ 52" by (simp add: pow2_scale)
  finally have "\<bar>x\<bar> * 2 ^ 1074 < of_int (2 ^ 52)" by simp
  then have "\<lfloor>\<bar>x\<bar> * 2 ^ 1074\<rfloor> < 2 ^ 52" by (simp only: floor_less_iff)
  then have "bitlen \<lfloor>\<bar>x\<bar> * 2 ^ 1074\<rfloor> \<le> 52" by (simp add: bitlen_le_iff_power)
  then show ?thesis by (simp add: ulp_exp_def)
qed


lemma fl64r_subnormal:
  assumes "\<bar>x\<bar> < 2 powi (- 1022)"
  shows "fl64r x = of_int (rne (x / 2 powi (- 1074))) * 2 powi (- 1074)"
  by (simp add: fl64r_def ulp_exp_subnormal [OF assms])

lemma fl64r_0 [simp]: "fl64r 0 = 0"
  using rne_of_int [of 0] by (simp add: fl64r_def)

lemma ulp_exp_lower:
  assumes "- 1074 < ulp_exp x"
  shows "2 powi (ulp_exp x + 52) \<le> \<bar>x\<bar>"
proof -
  define m where "m = \<lfloor>\<bar>x\<bar> * 2 ^ 1074\<rfloor>"
  have b: "53 < bitlen m" using assms by (simp add: ulp_exp_def m_def)
  then have m0: "0 < m" using bitlen_eq_zero_iff [of m] by (cases "0 < m") auto
  have ue: "ulp_exp x = bitlen m - 53 - 1074" using b by (simp add: ulp_exp_def m_def)
  have "2 ^ nat (bitlen m - 1) \<le> m" using bitlen_bounds [OF m0] by simp
  then have "(2::real) ^ nat (bitlen m - 1) \<le> of_int m"
    by (metis of_int_le_iff of_int_numeral of_int_power)
  also have "\<dots> \<le> \<bar>x\<bar> * 2 ^ 1074" by (simp add: m_def)
  finally have "(2::real) powi (bitlen m - 1) \<le> \<bar>x\<bar> * 2 ^ 1074"
    using b by (simp add: power_int_def)
  moreover have "ulp_exp x + 52 + 1074 = bitlen m - 1" using ue by simp
  then have "(2::real) powi (bitlen m - 1) = 2 powi (ulp_exp x + 52) * 2 ^ 1074"
    by (simp only: pow2_scale)
  ultimately have "(2::real) powi (ulp_exp x + 52) * 2 ^ 1074 \<le> \<bar>x\<bar> * 2 ^ 1074" by simp
  then show ?thesis by (rule mult_right_le_imp_le) simp
qed

lemma rne_small:
  assumes "\<bar>z\<bar> < 1 / 2"
  shows "rne z = 0"
proof (cases "0 \<le> z")
  case True
  with assms have "\<lfloor>z\<rfloor> = 0" by linarith
  with assms True show ?thesis by (simp add: rne_def)
next
  case False
  with assms have "\<lfloor>z\<rfloor> = - 1" by linarith
  with assms False show ?thesis by (simp add: rne_def)
qed

lemma fl64r_err: "\<bar>fl64r x - x\<bar> \<le> 2 powi ulp_exp x / 2"
proof -
  let ?u = "(2::real) powi ulp_exp x"
  have u: "0 < ?u" by simp
  have "fl64r x - x = (of_int (rne (x / ?u)) - x / ?u) * ?u"
    by (simp add: fl64r_def algebra_simps)
  then have "\<bar>fl64r x - x\<bar> = \<bar>of_int (rne (x / ?u)) - x / ?u\<bar> * ?u"
    by (simp add: abs_mult)
  also have "\<dots> \<le> 1 / 2 * ?u"
    by (intro mult_right_mono rne_err) simp
  finally show ?thesis by simp
qed

lemma fl64r_bound: "\<bar>fl64r x\<bar> \<le> 2 * \<bar>x\<bar>"
proof (cases "- 1074 < ulp_exp x")
  case True
  have "(2::real) powi ulp_exp x / 2 \<le> 2 powi (ulp_exp x + 52)"
    by (simp add: power_int_add)
  also have "\<dots> \<le> \<bar>x\<bar>" by (rule ulp_exp_lower [OF True])
  finally show ?thesis using fl64r_err [of x] by linarith
next
  case False
  then have ue: "ulp_exp x = - 1074" using ulp_exp_ge [of x] by linarith
  define u where "u = (2::real) powi ulp_exp x"
  have u: "0 < u" by (simp add: u_def)
  have err: "\<bar>fl64r x - x\<bar> \<le> u / 2" unfolding u_def by (rule fl64r_err)
  show ?thesis
  proof (cases "u / 2 \<le> \<bar>x\<bar>")
    case True
    then show ?thesis using err by linarith
  next
    case False
    then have "\<bar>x\<bar> / u < 1 / 2" using u by (simp add: divide_less_eq)
    then have h: "\<bar>x / u\<bar> < 1 / 2" using u by (simp add: abs_divide)
    then have "rne (x / u) = 0" by (rule rne_small)
    then show ?thesis by (simp add: fl64r_def u_def)
  qed
qed

lemma fl64_finite:
  assumes "\<bar>x\<bar> < 2 ^ 1023"
  shows "fl64 x = Some (fl64r x)"
proof -
  have "\<bar>fl64r x\<bar> \<le> 2 * \<bar>x\<bar>" by (rule fl64r_bound)
  also have "\<dots> < 2 * 2 ^ 1023" using assms by simp
  finally show ?thesis by (simp add: fl64_def)
qed



lemma fl64_0 [simp]: "fl64 0 = Some 0"
  by (simp add: fl64_def)

lemma ulp_exp_small:
  assumes "\<bar>x\<bar> < 2 ^ 53"
  shows "ulp_exp x \<le> 0"
proof -
  have "\<bar>x\<bar> * 2 ^ 1074 < 2 ^ 53 * 2 ^ 1074" using assms by simp
  also have "\<dots> = (2::real) ^ 1127" by (simp only: power_add [symmetric]) simp
  finally have "\<bar>x\<bar> * 2 ^ 1074 < of_int (2 ^ 1127)" by simp
  then have "\<lfloor>\<bar>x\<bar> * 2 ^ 1074\<rfloor> < 2 ^ 1127" by (simp only: floor_less_iff)
  then have "bitlen \<lfloor>\<bar>x\<bar> * 2 ^ 1074\<rfloor> \<le> 1127" by (simp only: bitlen_le_iff_power) simp
  then show ?thesis by (simp add: ulp_exp_def)
qed

lemma fl64_of_nat:
  assumes "k < 2 ^ 53"
  shows "fl64 (real k) = Some (real k)"
proof -
  have b: "\<bar>real k\<bar> < 2 ^ 53" using assms by (simp add: of_nat_less_numeral_power_cancel_iff)
  let ?u = "(2::real) powi ulp_exp (real k)"
  have ue: "ulp_exp (real k) \<le> 0" using b by (rule ulp_exp_small)
  define j where "j = int k * 2 ^ nat (- ulp_exp (real k))"
  have "of_int j * ?u = real k"
    using ue by (simp add: j_def power_int_def field_simps)
  then have "real k / ?u = of_int j" by (simp add: field_simps)
  then have "fl64r (real k) = of_int j * ?u" by (simp add: fl64r_def)
  then have r: "fl64r (real k) = real k" using \<open>of_int j * ?u = real k\<close> by simp
  have "\<bar>real k\<bar> < 2 ^ 1023"
    using b by (rule less_trans) (rule power_strict_increasing, simp_all)
  then show ?thesis by (simp only: fl64_finite r)
qed

























section \<open>The heat right-hand side in float64\<close>



section \<open>The drivers\<close>

lemma linspace_Inr: "0 \<le> num \<Longrightarrow> \<exists>x. linspace start stop num = Inr x \<and> length x = nat num"
  by (simp add: linspace_def Let_def)

lemma linspace_unit_steps:
  assumes "1 \<le> n" "n < 2 ^ 52"
  shows "linspace 0 (real n) (int n + 1) = Inr (map (\<lambda>i. Some (real i)) [0..<n + 1])"
proof -
  have n53: "i < 2 ^ 53" if "i \<le> n" for i
  proof -
    have "i < 2 ^ 52" using that assms(2) by simp
    also have "\<dots> < (2::nat) ^ 53" by simp
    finally show ?thesis .
  qed
  have fn: "fl64 (real i) = Some (real i)" if "i \<le> n" for i
    using n53 [OF that] by (rule fl64_of_nat)
  have d: "fsub (Some (real n)) (Some 0) = Some (real n)" by (simp add: fsub_def fn)
  have "fl64 (real n / real n) = fl64 (real 1)" using assms(1) by simp
  then have st: "fdiv (Some (real n)) (Some (real n)) = Some 1"
    using assms(1) fn [of 1] by (simp add: fdiv_def)
  have cells: "map (\<lambda>v. fadd v (Some 0)) (map (\<lambda>v. fmul v (Some 1)) (map (\<lambda>i. Some (real i)) [0..<Suc n]))
      = map (\<lambda>i. Some (real i)) [0..<Suc n]"
    by (rule nth_equalityI) (auto simp: fadd_def fmul_def fn nth_append simp del: upt_Suc)
  have upd: "(map (\<lambda>i. Some (real i)) [0..<Suc n])[n := Some (real n)] = map (\<lambda>i. Some (real i)) [0..<Suc n]"
    by (rule nth_equalityI) (auto simp: nth_list_update nth_append simp del: upt_Suc)
  show ?thesis
    using assms(1) by (simp add: linspace_def Let_def d st cells upd nat_add_distrib del: upt_Suc map_map)
qed

text \<open>
  C8, as the code has it. Each driver makes exactly one call of the integrator, whatever
  that call gives: the count of calls goes up by one, the call gets the right-hand side,
  the time span, the initial state and the evaluation times \<open>0, 1, ..., 50\<close> (heat) or
  \<open>0, 1, ..., 100\<close> (wave), and its outcome, a result object with any success flag or an
  exception, is the driver's outcome unchanged.
\<close>

theorem driver_calls_integrator_once:
  "heat_driver solve_ivp p calls
     = (solve_ivp calls (\<lambda>t y. heat_odefun t y p) (0, 50) T_init
          (map (\<lambda>i. Some (real i)) [0..<51]), Suc calls) \<and>
   wave_driver solve_ivp B a c x y dx dy Nx Ny calls
     = (solve_ivp calls (\<lambda>t u. wave_odefun u t B a c x y dx dy Nx Ny) (0, 100)
          (replicate (2 * Nx * Ny) 0) (map (\<lambda>i. Some (real i)) [0..<101]), Suc calls)"
proof -
  have "linspace 0 (real 50) (int 50 + 1) = Inr (map (\<lambda>i. Some (real i)) [0..<50 + 1])"
    by (rule linspace_unit_steps) simp_all
  then have a: "linspace 0 50 51 = Inr (map (\<lambda>i. Some (real i)) [0..<51])" by simp
  have "linspace 0 (real 100) (int 100 + 1) = Inr (map (\<lambda>i. Some (real i)) [0..<100 + 1])"
    by (rule linspace_unit_steps) simp_all
  then have b: "linspace 0 100 101 = Inr (map (\<lambda>i. Some (real i)) [0..<101])" by simp
  show ?thesis
    by (simp only: heat_driver_def wave_driver_def a b Let_def sum.case) 
qed

text \<open>
  The claim C8 as it is worded fails: with an integrator that reports failure at its first
  call and would succeed at a second one, both drivers return the failed result after one
  call and raise nothing.
\<close>

theorem driver_failure_counterexample:
  "heat_driver
     (\<lambda>k f span y0 t_eval.
        if k = 0
        then Inr \<lparr>sol_t = [0], sol_y = [], sol_status = - 1,
               sol_message = ''Required step size is less than spacing between numbers.'',
               sol_success = False\<rparr>
        else Inr \<lparr>sol_t = [0, 50], sol_y = [[1, 1]], sol_status = 0,
               sol_message = ''The solver successfully reached the end of the integration interval.'',
               sol_success = True\<rparr>)
     \<lparr>p_c = 2, p_q = [1, 3, 6], p_x = [0, 1, 2, 3], p_a = 1 / 2, p_Nx = 3\<rparr> 0
   = (Inr \<lparr>sol_t = [0], sol_y = [], sol_status = - 1,
        sol_message = ''Required step size is less than spacing between numbers.'',
        sol_success = False\<rparr>, 1) \<and>
   wave_driver
     (\<lambda>k f span y0 t_eval.
        if k = 0
        then Inr \<lparr>sol_t = [0], sol_y = [], sol_status = - 1,
               sol_message = ''Required step size is less than spacing between numbers.'',
               sol_success = False\<rparr>
        else Inr \<lparr>sol_t = [0, 100], sol_y = [[0, 0]], sol_status = 0,
               sol_message = ''The solver successfully reached the end of the integration interval.'',
               sol_success = True\<rparr>)
     1 (1 / 10) (1 / 2) [0, 5, 10] [0, 5, 10] 5 5 3 3 0
   = (Inr \<lparr>sol_t = [0], sol_y = [], sol_status = - 1,
        sol_message = ''Required step size is less than spacing between numbers.'',
        sol_success = False\<rparr>, 1)"
proof -
  obtain te where te: "linspace 0 50 51 = Inr te" using linspace_Inr [of 51 0 50] by auto
  obtain te' where te': "linspace 0 100 101 = Inr te'" using linspace_Inr [of 101 0 100] by auto
  show ?thesis by (simp add: heat_driver_def wave_driver_def te te')
qed

section \<open>The grid\<close>










end
